theory Spec2Isabelle
  imports Main "HOL-Library.Word"
begin

unbundle bit_operations_syntax

section \<open>Data model (common.hpp)\<close>

type_synonym uint8 = "8 word"
type_synonym uint32 = "32 word"

text \<open>
  \<^verbatim>\<open>enum class EventType : uint8 { None = 0, Connect, Disconnect, Receive }\<close>.
  The enumerator \<^verbatim>\<open>None\<close> is written \<open>EventNone\<close>, since \<open>None\<close> is the empty option.
\<close>

datatype EventType = EventNone | Connect | Disconnect | Receive

text \<open>
  \<^verbatim>\<open>struct Packet { struct Header { uint32 id; uint32 type; }; Header header; std::vector<uint8> data; }\<close>.
  The header fields are written \<open>header_id\<close> and \<open>header_type\<close>: \<open>id\<close> is the identity
  function of HOL and \<open>type\<close> is the field of \<open>Event\<close> below.
\<close>

record Header =
  header_id :: uint32
  header_type :: uint32

record Packet =
  header :: Header
  data :: "uint8 list"

text \<open>\<^verbatim>\<open>struct Event { uint32 peer_id; EventType type; std::unique_ptr<Packet> packet; }\<close>;
  a null \<^verbatim>\<open>unique_ptr\<close> is \<open>None\<close>.\<close>

record Event =
  peer_id :: uint32
  type :: EventType
  packet :: "Packet option"

text \<open>\<^verbatim>\<open>enum PacketFlag : uint8\<close>; flags can be combined, so a flag argument is any byte.\<close>

type_synonym PacketFlag = uint8

definition RELIABLE :: PacketFlag where
  "RELIABLE = push_bit 0 1"

definition UNSEQUENCED :: PacketFlag where
  "UNSEQUENCED = push_bit 1 1"

definition UNRELIABLE_FRAGMENT :: PacketFlag where
  "UNRELIABLE_FRAGMENT = push_bit 3 1"

section \<open>Object representation of the header\<close>

text \<open>
  \<^verbatim>\<open>std::memcpy\<close> copies the object representation of \<^verbatim>\<open>Packet::Header\<close>: two
  \<^verbatim>\<open>uint32\<close> without padding, each in the byte order of the platform. The byte order is a
  parameter of the model; both orders are covered.
\<close>

datatype byte_order = LittleEndian | BigEndian

definition le_bytes :: "uint32 \<Rightarrow> uint8 list" where
  "le_bytes w = [ucast w, ucast (drop_bit 8 w), ucast (drop_bit 16 w), ucast (drop_bit 24 w)]"

definition le_word :: "uint8 list \<Rightarrow> uint32" where
  "le_word bs = ucast (bs ! 0) OR push_bit 8 (ucast (bs ! 1)) OR push_bit 16 (ucast (bs ! 2))
     OR push_bit 24 (ucast (bs ! 3))"

fun store_u32 :: "byte_order \<Rightarrow> uint32 \<Rightarrow> uint8 list" where
  "store_u32 LittleEndian w = le_bytes w"
| "store_u32 BigEndian w = rev (le_bytes w)"

fun load_u32 :: "byte_order \<Rightarrow> uint8 list \<Rightarrow> uint32" where
  "load_u32 LittleEndian bs = le_word bs"
| "load_u32 BigEndian bs = le_word (rev bs)"

definition sizeof_Header :: nat where
  "sizeof_Header = 8"

definition Header_bytes :: "byte_order \<Rightarrow> Header \<Rightarrow> uint8 list" where
  "Header_bytes bo h = store_u32 bo (header_id h) @ store_u32 bo (header_type h)"

definition Header_of_bytes :: "byte_order \<Rightarrow> uint8 list \<Rightarrow> Header" where
  "Header_of_bytes bo bs =
     \<lparr>header_id = load_u32 bo (take 4 bs), header_type = load_u32 bo (take 4 (drop 4 bs))\<rparr>"

text \<open>\<^verbatim>\<open>memcpy(dst + off, src, n)\<close> on a buffer that holds at least \<open>off + n\<close> bytes.\<close>

definition memcpy :: "uint8 list \<Rightarrow> nat \<Rightarrow> uint8 list \<Rightarrow> uint8 list" where
  "memcpy dst off src = take off dst @ src @ drop (off + length src) dst"

section \<open>Packet and PacketHelper (common.hpp)\<close>

definition Packet_size :: "Packet \<Rightarrow> nat" where
  "Packet_size p = sizeof_Header + length (data p)"

definition putdata :: "Packet \<Rightarrow> uint8 list \<Rightarrow> Packet" where
  "putdata p bytes = p\<lparr>data := bytes\<rparr>"

text \<open>
  \<^verbatim>\<open>unpack_data<T>\<close>. The type parameter is given by the layout of \<^verbatim>\<open>T\<close>: one
  entry for each of its \<^verbatim>\<open>sizeof(T)\<close> bytes, \<open>True\<close> for a byte of the value
  representation and \<open>False\<close> for a padding byte. An object is the list of its bytes.
\<close>

type_synonym layout = "bool list"

definition sizeof :: "layout \<Rightarrow> nat" where
  "sizeof T = length T"

text \<open>
  \<^verbatim>\<open>return result_object;\<close> copies the object by value into the \<^verbatim>\<open>std::optional<T>\<close>.
  The copy of a trivially copyable object carries its value bytes; what is in the padding
  bytes of the copy is left to the implementation, and is given by \<open>padding\<close>.
\<close>

definition copy_by_value :: "layout \<Rightarrow> (nat \<Rightarrow> uint8) \<Rightarrow> uint8 list \<Rightarrow> uint8 list" where
  "copy_by_value T padding obj =
     map (\<lambda>i. if T ! i then obj ! i else padding i) [0..<sizeof T]"

text \<open>
  \<^verbatim>\<open>std::memcpy(&result_object, data.data(), sizeof(T))\<close> fills every byte of
  \<^verbatim>\<open>result_object\<close>. \<^verbatim>\<open>std::nullopt\<close> is \<open>None\<close>.
\<close>

definition unpack_data :: "layout \<Rightarrow> (nat \<Rightarrow> uint8) \<Rightarrow> Packet \<Rightarrow> uint8 list option" where
  "unpack_data T padding p =
     (if data p = [] \<or> length (data p) \<noteq> sizeof T then None
      else let result_object = take (sizeof T) (data p)
           in Some (copy_by_value T padding result_object))"

definition serialize_packet :: "byte_order \<Rightarrow> Packet \<Rightarrow> uint8 list" where
  "serialize_packet bo p =
     (let buffer0 = replicate (Packet_size p) 0;
          buffer1 = memcpy buffer0 0 (Header_bytes bo (header p));
          buffer2 = memcpy buffer1 sizeof_Header (data p)
      in buffer2)"

text \<open>
  \<^verbatim>\<open>deserialize_packet(data, size)\<close>: the argument is the \<^verbatim>\<open>size\<close> bytes at \<^verbatim>\<open>data\<close>;
  the null \<^verbatim>\<open>unique_ptr\<close> is \<open>None\<close>.
\<close>

definition deserialize_packet :: "byte_order \<Rightarrow> uint8 list \<Rightarrow> Packet option" where
  "deserialize_packet bo bytes =
     (if length bytes < sizeof_Header then None
      else let p = \<lparr>header = Header_of_bytes bo (take sizeof_Header bytes), data = []\<rparr>
           in Some (putdata p (drop sizeof_Header bytes)))"

section \<open>TSQueue (common.hpp)\<close>

text \<open>
  \<^verbatim>\<open>TSQueue<T>\<close> is a \<^verbatim>\<open>std::deque<T>\<close> whose every operation runs under one mutex, so the
  operations of all threads happen one after the other: the queue is a list, front first,
  and an operation is a function on it. \<^verbatim>\<open>front\<close>, \<^verbatim>\<open>back\<close>, \<^verbatim>\<open>pop_front\<close> and
  \<^verbatim>\<open>pop_back\<close> on an empty deque are undefined behaviour: \<open>None\<close>.
\<close>

type_synonym 'a TSQueue = "'a list"

definition TSQueue_front :: "'a TSQueue \<Rightarrow> 'a option" where
  "TSQueue_front q = (case q of [] \<Rightarrow> None | t # _ \<Rightarrow> Some t)"

definition TSQueue_back :: "'a TSQueue \<Rightarrow> 'a option" where
  "TSQueue_back q = (if q = [] then None else Some (last q))"

definition TSQueue_push_back :: "'a TSQueue \<Rightarrow> 'a \<Rightarrow> 'a TSQueue" where
  "TSQueue_push_back q item = q @ [item]"

definition TSQueue_push_front :: "'a TSQueue \<Rightarrow> 'a \<Rightarrow> 'a TSQueue" where
  "TSQueue_push_front q item = item # q"

definition TSQueue_empty :: "'a TSQueue \<Rightarrow> bool" where
  "TSQueue_empty q = (q = [])"

definition TSQueue_clear :: "'a TSQueue \<Rightarrow> 'a TSQueue" where
  "TSQueue_clear q = []"

text \<open>\<^verbatim>\<open>T t = std::move(queue.front()); queue.pop_front(); return t;\<close>\<close>

definition TSQueue_pop_front :: "'a TSQueue \<Rightarrow> ('a \<times> 'a TSQueue) option" where
  "TSQueue_pop_front q = (case q of [] \<Rightarrow> None | t # rest \<Rightarrow> Some (t, rest))"

text \<open>
  \<^verbatim>\<open>T t = std::move(queue.back()); queue.pop_front(); return t;\<close>
  The move leaves the back element in its moved-from state, given by \<open>moved\<close>, and
  the element that is then removed is the one at the front.
\<close>

definition TSQueue_pop_back :: "('a \<Rightarrow> 'a) \<Rightarrow> 'a TSQueue \<Rightarrow> ('a \<times> 'a TSQueue) option" where
  "TSQueue_pop_back moved q =
     (if q = [] then None
      else let t = last q;
               q1 = butlast q @ [moved t]
           in Some (t, tl q1))"

text \<open>The moved-from state of an \<open>Event\<close>: scalars are copied, the \<^verbatim>\<open>unique_ptr\<close> is left null.\<close>

definition Event_moved :: "Event \<Rightarrow> Event" where
  "Event_moved e = e\<lparr>packet := None\<rparr>"

text \<open>Popping from the front \<open>n\<close> times, collecting what was returned.\<close>

fun pop_front_times :: "nat \<Rightarrow> 'a TSQueue \<Rightarrow> ('a list \<times> 'a TSQueue) option" where
  "pop_front_times 0 q = Some ([], q)"
| "pop_front_times (Suc n) q =
     (case TSQueue_pop_front q of
        None \<Rightarrow> None
      | Some (t, rest) \<Rightarrow>
          (case pop_front_times n rest of
             None \<Rightarrow> None
           | Some (ts, q') \<Rightarrow> Some (t # ts, q')))"

text \<open>
  A schedule of queue operations, as the mutex orders them: pushes to the back by one
  thread interleaved with pops from the front by another. The result is the queue and the
  items popped so far, oldest first.
\<close>

datatype 'a queue_op = Push_back 'a | Pop_front

fun run_queue_ops :: "'a queue_op list \<Rightarrow> 'a TSQueue \<times> 'a list \<Rightarrow> ('a TSQueue \<times> 'a list) option" where
  "run_queue_ops [] st = Some st"
| "run_queue_ops (Push_back x # ops) (q, popped) =
     run_queue_ops ops (TSQueue_push_back q x, popped)"
| "run_queue_ops (Pop_front # ops) (q, popped) =
     (case TSQueue_pop_front q of
        None \<Rightarrow> None
      | Some (t, rest) \<Rightarrow> run_queue_ops ops (rest, popped @ [t]))"

fun pushed_items :: "'a queue_op list \<Rightarrow> 'a list" where
  "pushed_items [] = []"
| "pushed_items (Push_back x # ops) = x # pushed_items ops"
| "pushed_items (Pop_front # ops) = pushed_items ops"

section \<open>The transport engine\<close>

text \<open>
  ENet is outside the repository. A peer is an opaque handle; a call into the library is
  recorded with its arguments, and what the library returns is a parameter. A notification
  delivered by \<^verbatim>\<open>enet_host_service\<close> carries the peer and, for a receive, the
  \<^verbatim>\<open>dataLength\<close> bytes of the packet.
\<close>

type_synonym ENetPeer = nat

type_synonym ENetPacket = "uint8 list \<times> PacketFlag"

datatype enet_call =
    enet_packet_create "uint8 list" PacketFlag
  | enet_peer_send "ENetPeer option" nat "ENetPacket option"
  | enet_host_broadcast nat ENetPacket
  | enet_packet_destroy ENetPacket

record ENetResults =
  packet_create_ok :: bool
  peer_send_result :: int

datatype ENetEvent =
    ENET_EVENT_TYPE_NONE
  | ENET_EVENT_TYPE_CONNECT ENetPeer
  | ENET_EVENT_TYPE_RECEIVE ENetPeer "uint8 list"
  | ENET_EVENT_TYPE_DISCONNECT ENetPeer
  | ENET_EVENT_TYPE_DISCONNECT_TIMEOUT ENetPeer

fun is_transport_send :: "enet_call \<Rightarrow> bool" where
  "is_transport_send (enet_peer_send _ _ _) = True"
| "is_transport_send (enet_host_broadcast _ _) = True"
| "is_transport_send _ = False"

section \<open>Client (client.hpp)\<close>

text \<open>
  The fields that the methods below read or write. \<^verbatim>\<open>host\<close> is fixed at construction and
  \<^verbatim>\<open>show_log\<close> only switches the log lines, which are not modelled.
\<close>

record Client =
  peer :: "ENetPeer option"
  running :: bool
  connected :: bool
  events :: "Event TSQueue"

definition isconnected :: "Client \<Rightarrow> bool" where
  "isconnected c = (connected c \<and> peer c \<noteq> None)"

text \<open>
  \<^verbatim>\<open>Client::send\<close> is a \<^verbatim>\<open>const\<close> method: it returns the client as it was, with the calls
  it made into the transport engine.
\<close>

definition Client_send ::
  "byte_order \<Rightarrow> ENetResults \<Rightarrow> Packet \<Rightarrow> PacketFlag \<Rightarrow> Client \<Rightarrow> Client \<times> enet_call list" where
  "Client_send bo env pkt flag c =
     (if \<not> connected c then (c, [])
      else let buffer = serialize_packet bo pkt;
               epacket = (if packet_create_ok env then Some (buffer, flag) else None)
           in (c, [enet_packet_create buffer flag, enet_peer_send (peer c) 0 epacket]))"


text \<open>
  The body of the \<^verbatim>\<open>switch\<close> in \<^verbatim>\<open>Client::network_thread_loop\<close>, as the statements each
  case executes, in program order.
\<close>

datatype Client_stmt =
    Set_running bool
  | Set_connected bool
  | Events_push_back Event
  | Packet_destroy "uint8 list"

fun Client_exec :: "Client_stmt \<Rightarrow> Client \<Rightarrow> Client" where
  "Client_exec (Set_running b) c = c\<lparr>running := b\<rparr>"
| "Client_exec (Set_connected b) c = c\<lparr>connected := b\<rparr>"
| "Client_exec (Events_push_back e) c = c\<lparr>events := TSQueue_push_back (events c) e\<rparr>"
| "Client_exec (Packet_destroy _) c = c"

definition serverid :: uint32 where
  "serverid = 0"

fun Client_case :: "byte_order \<Rightarrow> ENetEvent \<Rightarrow> Client_stmt list" where
  "Client_case bo (ENET_EVENT_TYPE_CONNECT _) =
     [Set_connected True,
      Events_push_back \<lparr>peer_id = serverid, type = Connect, packet = None\<rparr>]"
| "Client_case bo (ENET_EVENT_TYPE_RECEIVE _ bytes) =
     [Events_push_back
        \<lparr>peer_id = serverid, type = Receive, packet = deserialize_packet bo bytes\<rparr>,
      Packet_destroy bytes]"
| "Client_case bo (ENET_EVENT_TYPE_DISCONNECT _) =
     [Set_running False, Set_connected False,
      Events_push_back \<lparr>peer_id = serverid, type = Disconnect, packet = None\<rparr>]"
| "Client_case bo (ENET_EVENT_TYPE_DISCONNECT_TIMEOUT _) =
     [Set_running False, Set_connected False,
      Events_push_back \<lparr>peer_id = serverid, type = Disconnect, packet = None\<rparr>]"
| "Client_case bo ENET_EVENT_TYPE_NONE = []"

text \<open>The inner loop: one statement list for the notifications that
  \<^verbatim>\<open>enet_host_service\<close> delivers until it returns no more.\<close>

definition Client_service_stmts :: "byte_order \<Rightarrow> ENetEvent list \<Rightarrow> Client_stmt list" where
  "Client_service_stmts bo batch = concat (map (Client_case bo) batch)"

definition Client_service :: "byte_order \<Rightarrow> ENetEvent list \<Rightarrow> Client \<Rightarrow> Client" where
  "Client_service bo batch c = fold Client_exec (Client_service_stmts bo batch) c"

text \<open>
  The outer loop, \<^verbatim>\<open>while(this->running)\<close>. The feed gives, for each iteration, the
  notifications of its inner loop; the loop is followed for as long as the feed lasts.
\<close>

fun Client_network_thread_loop :: "byte_order \<Rightarrow> ENetEvent list list \<Rightarrow> Client \<Rightarrow> Client" where
  "Client_network_thread_loop bo [] c = c"
| "Client_network_thread_loop bo (batch # feed) c =
     (if running c then Client_network_thread_loop bo feed (Client_service bo batch c) else c)"

text \<open>The statements the loop executes on a feed, in order.\<close>

fun Client_loop_stmts :: "byte_order \<Rightarrow> ENetEvent list list \<Rightarrow> Client \<Rightarrow> Client_stmt list" where
  "Client_loop_stmts bo [] c = []"
| "Client_loop_stmts bo (batch # feed) c =
     (if running c
      then Client_service_stmts bo batch @ Client_loop_stmts bo feed (Client_service bo batch c)
      else [])"


fun pushed_events :: "Client_stmt list \<Rightarrow> Event list" where
  "pushed_events [] = []"
| "pushed_events (Events_push_back e # sts) = e # pushed_events sts"
| "pushed_events (_ # sts) = pushed_events sts"





section \<open>Server (server.hpp)\<close>

text \<open>
  The fields \<^verbatim>\<open>running\<close> and \<^verbatim>\<open>events\<close> are written \<open>server_running\<close> and
  \<open>server_events\<close>, the plain names being the client's. \<open>peer_data\<close> is the \<^verbatim>\<open>data\<close>
  pointer of each ENet peer, an \<^verbatim>\<open>uintptr_t\<close> of 64 bits, where the server stashes the id.
\<close>

record Server =
  server_running :: bool
  clients :: "uint32 \<rightharpoonup> ENetPeer"
  curid :: uint32
  server_events :: "Event TSQueue"
  peer_data :: "ENetPeer \<Rightarrow> 64 word"

definition Server_init :: Server where
  "Server_init =
     \<lparr>server_running = False, clients = Map.empty, curid = 1, server_events = [],
      peer_data = (\<lambda>_. 0)\<rparr>"

definition Server_start :: "Server \<Rightarrow> Server" where
  "Server_start s = (if server_running s then s else s\<lparr>server_running := True\<rparr>)"

definition Server_stop :: "Server \<Rightarrow> Server" where
  "Server_stop s = s\<lparr>server_running := False\<rparr>"

definition Server_poll_event :: "Server \<Rightarrow> Event option \<times> Server" where
  "Server_poll_event s =
     (if TSQueue_empty (server_events s) then (None, s)
      else case TSQueue_pop_front (server_events s) of
             None \<Rightarrow> (None, s)
           | Some (e, rest) \<Rightarrow> (Some e, s\<lparr>server_events := rest\<rparr>))"

text \<open>\<^verbatim>\<open>Server::send\<close> and \<^verbatim>\<open>Server::broadcast\<close> are \<^verbatim>\<open>const\<close> methods, as
  \<^verbatim>\<open>Client::send\<close> is. The guard is \<^verbatim>\<open>if(this->running) return;\<close>.\<close>

definition Server_send ::
  "byte_order \<Rightarrow> ENetResults \<Rightarrow> uint32 \<Rightarrow> Packet \<Rightarrow> PacketFlag \<Rightarrow> Server
     \<Rightarrow> Server \<times> enet_call list" where
  "Server_send bo env client_id pkt flag s =
     (if server_running s then (s, [])
      else let serialized = serialize_packet bo pkt;
               created = [enet_packet_create serialized flag]
           in if \<not> packet_create_ok env then (s, created)
              else case clients s client_id of
                     None \<Rightarrow> (s, created)
                   | Some p \<Rightarrow>
                       if peer_send_result env < 0
                       then (s, created @ [enet_peer_send (Some p) 0 (Some (serialized, flag)),
                                           enet_packet_destroy (serialized, flag)])
                       else (s, created @ [enet_peer_send (Some p) 0 (Some (serialized, flag))]))"

definition Server_broadcast ::
  "byte_order \<Rightarrow> ENetResults \<Rightarrow> Packet \<Rightarrow> PacketFlag \<Rightarrow> Server \<Rightarrow> Server \<times> enet_call list" where
  "Server_broadcast bo env pkt flag s =
     (if server_running s then (s, [])
      else let buffer = serialize_packet bo pkt;
               created = [enet_packet_create buffer flag]
           in if \<not> packet_create_ok env then (s, created)
              else (s, created @ [enet_host_broadcast 0 (buffer, flag)]))"

text \<open>The body of the \<^verbatim>\<open>switch\<close> in \<^verbatim>\<open>Server::network_thread_loop\<close>.\<close>

fun Server_case :: "byte_order \<Rightarrow> ENetEvent \<Rightarrow> Server \<Rightarrow> Server" where
  "Server_case bo (ENET_EVENT_TYPE_CONNECT p) s =
     (let newid = curid s;
          s1 = s\<lparr>curid := curid s + 1\<rparr>;
          s2 = s1\<lparr>clients := (clients s1)(newid \<mapsto> p)\<rparr>;
          s3 = s2\<lparr>peer_data := (peer_data s2)(p := ucast newid)\<rparr>
      in s3\<lparr>server_events := TSQueue_push_back (server_events s3)
               \<lparr>peer_id = newid, type = Connect, packet = None\<rparr>\<rparr>)"
| "Server_case bo (ENET_EVENT_TYPE_RECEIVE p bytes) s =
     (let peerid = ucast (peer_data s p)
      in s\<lparr>server_events := TSQueue_push_back (server_events s)
              \<lparr>peer_id = peerid, type = Receive, packet = deserialize_packet bo bytes\<rparr>\<rparr>)"
| "Server_case bo (ENET_EVENT_TYPE_DISCONNECT p) s =
     (let peerid = ucast (peer_data s p);
          s1 = s\<lparr>clients := (clients s)(peerid := None)\<rparr>
      in s1\<lparr>server_events := TSQueue_push_back (server_events s1)
               \<lparr>peer_id = peerid, type = Disconnect, packet = None\<rparr>\<rparr>)"
| "Server_case bo (ENET_EVENT_TYPE_DISCONNECT_TIMEOUT p) s =
     (let peerid = ucast (peer_data s p);
          s1 = s\<lparr>clients := (clients s)(peerid := None)\<rparr>
      in s1\<lparr>server_events := TSQueue_push_back (server_events s1)
               \<lparr>peer_id = peerid, type = Disconnect, packet = None\<rparr>\<rparr>)"
| "Server_case bo ENET_EVENT_TYPE_NONE s = s"

definition Server_service :: "byte_order \<Rightarrow> ENetEvent list \<Rightarrow> Server \<Rightarrow> Server" where
  "Server_service bo batch s = fold (Server_case bo) batch s"

fun Server_network_thread_loop :: "byte_order \<Rightarrow> ENetEvent list list \<Rightarrow> Server \<Rightarrow> Server" where
  "Server_network_thread_loop bo [] s = s"
| "Server_network_thread_loop bo (batch # feed) s =
     (if server_running s
      then Server_network_thread_loop bo feed (Server_service bo batch s)
      else s)"

text \<open>The ids handed out, read off the \<open>Connect\<close> events in the order they were pushed.\<close>

definition connect_ids :: "Event list \<Rightarrow> uint32 list" where
  "connect_ids es = map peer_id (filter (\<lambda>e. type e = Connect) es)"

fun is_CONNECT :: "ENetEvent \<Rightarrow> bool" where
  "is_CONNECT (ENET_EVENT_TYPE_CONNECT _) = True"
| "is_CONNECT _ = False"

definition count_CONNECT :: "ENetEvent list list \<Rightarrow> nat" where
  "count_CONNECT feed = length (filter is_CONNECT (concat feed))"

text \<open>The ids \<open>c, c + 1, \<dots>\<close> that \<open>k\<close> increments of a counter at \<open>c\<close> hand out,
  in \<^verbatim>\<open>uint32\<close> arithmetic.\<close>

definition fresh_ids :: "uint32 \<Rightarrow> nat \<Rightarrow> uint32 list" where
  "fresh_ids c k = map (\<lambda>i. c + of_nat i) [0..<k]"

text \<open>A feed in which a client connects and disconnects again, \<open>n\<close> times over.\<close>

definition churn :: "nat \<Rightarrow> ENetEvent list list" where
  "churn n = replicate n [ENET_EVENT_TYPE_CONNECT 0, ENET_EVENT_TYPE_DISCONNECT 0]"

section \<open>A session used as running example\<close>

text \<open>A client that has called \<^verbatim>\<open>connect\<close>, and a feed in which the connection is
  established, one packet arrives and the server disconnects.\<close>

definition example_client :: Client where
  "example_client = \<lparr>peer = Some 7, running = True, connected = False, events = []\<rparr>"

definition example_feed :: "ENetEvent list list" where
  "example_feed =
     [[ENET_EVENT_TYPE_CONNECT 7, ENET_EVENT_TYPE_RECEIVE 7 [1, 0, 0, 0, 2, 0, 0, 0, 104, 105]],
      [ENET_EVENT_TYPE_DISCONNECT 7]]"

section \<open>Byte order lemmas\<close>

lemma bit_range32:
  assumes "n < (32::nat)"
  obtains "n < 8" | "8 \<le> n" "n < 16" | "16 \<le> n" "n < 24" | "24 \<le> n" "n < 32"
  using assms by linarith

lemma le_word_le_bytes: "le_word (le_bytes w) = w"
proof (rule bit_word_eqI)
  fix n assume "n < LENGTH(32)"
  then have "n < 32" by simp
  then show "bit (le_word (le_bytes w)) n = bit w n"
    by (cases n rule: bit_range32) (auto simp add: le_word_def le_bytes_def bit_simps)
qed

lemma le_bytes_le_word4: "le_bytes (le_word [a, b, c, d]) = [a, b, c, d]"
proof -
  have "ucast (le_word [a, b, c, d]) = a"
    unfolding le_word_def
    by (rule bit_word_eqI) (auto simp add: bit_simps dest: bit_imp_le_length)
  moreover have "ucast (drop_bit 8 (le_word [a, b, c, d])) = b"
    unfolding le_word_def
    by (rule bit_word_eqI) (auto simp add: bit_simps dest: bit_imp_le_length)
  moreover have "ucast (drop_bit 16 (le_word [a, b, c, d])) = c"
    unfolding le_word_def
    by (rule bit_word_eqI) (auto simp add: bit_simps dest: bit_imp_le_length)
  moreover have "ucast (drop_bit 24 (le_word [a, b, c, d])) = d"
    unfolding le_word_def
    by (rule bit_word_eqI) (auto simp add: bit_simps dest: bit_imp_le_length)
  ultimately show ?thesis by (simp add: le_bytes_def)
qed

lemma length4_cases: "length bs = 4 \<Longrightarrow> \<exists>a b c d. bs = [a, b, c, d]"
  by (cases bs; simp; cases "tl bs"; simp; cases "tl (tl bs)"; simp;
      cases "tl (tl (tl bs))"; simp)

lemma length_store_u32: "length (store_u32 bo w) = 4"
  by (cases bo) (simp_all add: le_bytes_def)

lemma load_store_u32: "load_u32 bo (store_u32 bo w) = w"
  by (cases bo) (simp_all add: le_word_le_bytes)

lemma store_load_u32:
  assumes "length bs = 4"
  shows "store_u32 bo (load_u32 bo bs) = bs"
proof (cases bo)
  case LittleEndian
  from assms obtain a b c d where "bs = [a, b, c, d]"
    using length4_cases by blast
  with LittleEndian show ?thesis by (simp add: le_bytes_le_word4)
next
  case BigEndian
  from assms obtain a b c d where bs: "bs = [a, b, c, d]"
    using length4_cases by blast
  have "le_bytes (le_word [d, c, b, a]) = [d, c, b, a]"
    by (rule le_bytes_le_word4)
  with BigEndian bs show ?thesis by simp
qed

lemma length_Header_bytes: "length (Header_bytes bo h) = sizeof_Header"
  by (simp add: Header_bytes_def sizeof_Header_def length_store_u32)

lemma Header_of_bytes_Header_bytes: "Header_of_bytes bo (Header_bytes bo h) = h"
  by (simp add: Header_of_bytes_def Header_bytes_def length_store_u32 load_store_u32)

lemma Header_bytes_Header_of_bytes:
  assumes "length bs = 8"
  shows "Header_bytes bo (Header_of_bytes bo bs) = bs"
proof -
  have "store_u32 bo (load_u32 bo (take 4 bs)) = take 4 bs"
    using assms by (intro store_load_u32) simp
  moreover have "store_u32 bo (load_u32 bo (take 4 (drop 4 bs))) = take 4 (drop 4 bs)"
    using assms by (intro store_load_u32) simp
  moreover have "take 4 bs @ take 4 (drop 4 bs) = bs"
    using assms by (metis append_take_drop_id order_refl take_all_iff length_drop
        diff_add_inverse2 numeral_Bit0 le_refl)
  ultimately show ?thesis
    by (simp add: Header_bytes_def Header_of_bytes_def)
qed

lemma serialize_packet_layout:
  "serialize_packet bo p = Header_bytes bo (header p) @ data p"
  by (simp add: serialize_packet_def memcpy_def Packet_size_def length_Header_bytes)

section \<open>Packet codec\<close>

text \<open>
  Claim C2. For every header pair (id, type) and every payload \<open>P\<close>, the empty one
  included, decoding the encoding of the packet \<open>{id, type, P}\<close> succeeds and gives back
  a packet with the same header fields and exactly the payload \<open>P\<close>, in either byte order.
\<close>

theorem deserialize_serialize_roundtrip:
  "deserialize_packet bo
     (serialize_packet bo \<lparr>header = \<lparr>header_id = i, header_type = t\<rparr>, data = P\<rparr>)
   = Some \<lparr>header = \<lparr>header_id = i, header_type = t\<rparr>, data = P\<rparr>"
  by (simp add: serialize_packet_layout deserialize_packet_def length_Header_bytes
      Header_of_bytes_Header_bytes putdata_def)

text \<open>
  Claim C7. Decoding fails, returning no packet, on every input shorter than 8 bytes, the
  empty input included. On every input of at least 8 bytes it succeeds: the header of the
  packet is the first 8 bytes of the input and the payload is the remainder, which may be
  empty.
\<close>

theorem deserialize_packet_truncation:
  "(length bytes < 8 \<longrightarrow> deserialize_packet bo bytes = None) \<and>
   (8 \<le> length bytes \<longrightarrow>
      (\<exists>p. deserialize_packet bo bytes = Some p \<and>
           Header_bytes bo (header p) = take 8 bytes \<and>
           data p = drop 8 bytes))"
  by (simp add: deserialize_packet_def sizeof_Header_def putdata_def
      Header_bytes_Header_of_bytes)

theorem deserialize_packet_truncation_witness:
  "deserialize_packet LittleEndian [1, 2, 3] = None \<and>
   (\<exists>p. deserialize_packet LittleEndian [1, 0, 0, 0, 2, 0, 0, 0, 104, 105] = Some p \<and>
        Header_bytes LittleEndian (header p) = [1, 0, 0, 0, 2, 0, 0, 0] \<and>
        data p = [104, 105])"
  using deserialize_packet_truncation [of "[1, 2, 3]" LittleEndian]
    deserialize_packet_truncation [of "[1, 0, 0, 0, 2, 0, 0, 0, 104, 105]" LittleEndian]
  by simp

lemma copy_by_value_length: "length (copy_by_value T padding obj) = sizeof T"
  by (simp add: copy_by_value_def)

lemma copy_by_value_nth:
  "i < sizeof T \<Longrightarrow> T ! i \<Longrightarrow> copy_by_value T padding obj ! i = obj ! i"
  by (simp add: copy_by_value_def)

lemma copy_by_value_no_padding:
  assumes "list_all (\<lambda>b. b) T" and "length obj = sizeof T"
  shows "copy_by_value T padding obj = obj"
proof (rule nth_equalityI)
  show "length (copy_by_value T padding obj) = length obj"
    using assms(2) by (simp add: copy_by_value_length)
next
  fix i assume "i < length (copy_by_value T padding obj)"
  then have i: "i < sizeof T" by (simp add: copy_by_value_length)
  with assms(1) have "T ! i" by (simp add: list_all_length sizeof_def)
  with i show "copy_by_value T padding obj ! i = obj ! i"
    by (rule copy_by_value_nth)
qed

text \<open>
  Claim C8, as stated, fails for a type with padding bytes. For the 16-byte
  \<^verbatim>\<open>long double\<close> of x86-64, ten value bytes and six padding bytes, and a 16-byte
  payload whose last six bytes are \<open>0xAA\<close>, extraction succeeds, and with an
  implementation that clears the padding of the copy the returned object ends in six
  zero bytes: its bytes are not the payload bytes.
\<close>

theorem unpack_data_padding_lost:
  "unpack_data
     [True, True, True, True, True, True, True, True, True, True,
      False, False, False, False, False, False] (\<lambda>_. 0)
     \<lparr>header = \<lparr>header_id = 1, header_type = 2\<rparr>,
      data = [0, 0, 0, 0, 0, 0, 0, 128, 255, 63, 170, 170, 170, 170, 170, 170]\<rparr>
   = Some [0, 0, 0, 0, 0, 0, 0, 128, 255, 63, 0, 0, 0, 0, 0, 0] \<and>
   length [0, 0, 0, 0, 0, 0, 0, 128, 255, 63, 170, 170, 170, 170, 170, 170 :: uint8]
   = sizeof [True, True, True, True, True, True, True, True, True, True,
      False, False, False, False, False, False]"
  by (simp add: unpack_data_def sizeof_def copy_by_value_def upt_rec)

text \<open>
  Claim C8, amended. For a value type \<open>T\<close> (of size at least 1, as every C++ object
  type is), typed extraction returns a value exactly when the payload length equals
  \<^verbatim>\<open>sizeof(T)\<close>; a size mismatch gives the absent result \<open>None\<close>, not an error. The
  returned object has \<^verbatim>\<open>sizeof(T)\<close> bytes, each byte of its value representation is
  the payload byte at that position, and when \<open>T\<close> has no padding its bytes are exactly
  the payload bytes.
\<close>

theorem unpack_data_value_bytes:
  assumes "0 < sizeof T"
  shows "(unpack_data T padding p \<noteq> None) = (length (data p) = sizeof T) \<and>
         (\<forall>v. unpack_data T padding p = Some v \<longrightarrow>
            length v = sizeof T \<and>
            (\<forall>i < sizeof T. T ! i \<longrightarrow> v ! i = data p ! i) \<and>
            (list_all (\<lambda>b. b) T \<longrightarrow> v = data p))"
proof (cases "length (data p) = sizeof T")
  case True
  with assms have ne: "data p \<noteq> []" by auto
  from True ne have u: "unpack_data T padding p = Some (copy_by_value T padding (data p))"
    by (simp add: unpack_data_def)
  have "list_all (\<lambda>b. b) T \<longrightarrow> copy_by_value T padding (data p) = data p"
    using True copy_by_value_no_padding by blast
  with u True show ?thesis
    by (simp add: copy_by_value_length copy_by_value_nth)
next
  case False
  then show ?thesis by (simp add: unpack_data_def)
qed

theorem unpack_data_value_bytes_witness:
  "0 < sizeof [True, True, True, True] \<and>
   list_all (\<lambda>b. b) [True, True, True, True] \<and>
   unpack_data [True, True, True, True] (\<lambda>_. 0)
     \<lparr>header = \<lparr>header_id = 1, header_type = 2\<rparr>, data = [239, 190, 173, 222]\<rparr>
     = Some [239, 190, 173, 222] \<and>
   unpack_data [True, True, True, True] (\<lambda>_. 0)
     \<lparr>header = \<lparr>header_id = 1, header_type = 2\<rparr>, data = [1, 2]\<rparr> = None"
proof -
  let ?T = "[True, True, True, True]"
  let ?p = "\<lparr>header = \<lparr>header_id = 1, header_type = 2\<rparr>, data = [239, 190, 173, 222 :: uint8]\<rparr>"
  let ?q = "\<lparr>header = \<lparr>header_id = 1, header_type = 2\<rparr>, data = [1, 2 :: uint8]\<rparr>"
  have h: "0 < sizeof ?T" by (simp add: sizeof_def)
  have np: "list_all (\<lambda>b. b) ?T" by simp
  have "length (data ?p) = sizeof ?T" by (simp add: sizeof_def)
  with unpack_data_value_bytes [OF h, of "\<lambda>_. 0" ?p] np
  obtain v where "unpack_data ?T (\<lambda>_. 0) ?p = Some v" "v = data ?p"
    by blast
  then have a: "unpack_data ?T (\<lambda>_. 0) ?p = Some [239, 190, 173, 222]" by simp
  have "length (data ?q) \<noteq> sizeof ?T" by (simp add: sizeof_def)
  with unpack_data_value_bytes [OF h, of "\<lambda>_. 0" ?q]
  have b: "unpack_data ?T (\<lambda>_. 0) ?q = None" by blast
  from h np a b show ?thesis by blast
qed

section \<open>Event queue\<close>

lemma pop_front_times_append:
  "pop_front_times (length xs) (xs @ ys) = Some (xs, ys)"
  by (induction xs) (simp_all add: TSQueue_pop_front_def)

lemma fold_push_back:
  "fold (\<lambda>e q. TSQueue_push_back q e) es q = q @ es"
  by (induction es arbitrary: q) (simp_all add: TSQueue_push_back_def)

lemma run_queue_ops_conserves:
  "run_queue_ops ops (q, popped) = Some (q', popped') \<Longrightarrow>
     popped' @ q' = popped @ q @ pushed_items ops"
proof (induction ops "(q, popped)" arbitrary: q popped rule: run_queue_ops.induct)
  case 1
  then show ?case by simp
next
  case (2 x ops q popped)
  then show ?case by (simp add: TSQueue_push_back_def)
next
  case (3 ops q popped)
  then show ?case
    by (cases q) (simp_all add: TSQueue_pop_front_def)
qed

text \<open>
  Claim C3. Pushing the events \<open>es\<close> to the back of an empty queue and popping from the
  front as many times returns exactly \<open>es\<close>, in the order pushed, and empties the
  queue. Under any schedule of pushes to the back interleaved with pops from the front,
  the items popped so far followed by the items still queued are the items pushed, in
  order: none is lost, none is duplicated.
\<close>

theorem TSQueue_fifo:
  "pop_front_times (length es) (fold (\<lambda>e q. TSQueue_push_back q e) es []) = Some (es, []) \<and>
   (run_queue_ops ops ([], []) = Some (q', popped') \<longrightarrow> popped' @ q' = pushed_items ops)"
proof
  show "pop_front_times (length es) (fold (\<lambda>e q. TSQueue_push_back q e) es []) = Some (es, [])"
    using pop_front_times_append [of es "[]"] by (simp add: fold_push_back)
  show "run_queue_ops ops ([], []) = Some (q', popped') \<longrightarrow> popped' @ q' = pushed_items ops"
    using run_queue_ops_conserves [of ops "[]" "[]" q' popped'] by simp
qed

theorem TSQueue_fifo_witness:
  "run_queue_ops [Push_back (1::nat), Push_back 2, Pop_front, Push_back 3, Pop_front] ([], [])
     = Some ([3], [1, 2]) \<and>
   [1, 2] @ [3] = pushed_items [Push_back (1::nat), Push_back 2, Pop_front, Push_back 3, Pop_front]"
  using TSQueue_fifo [of "[]" "[Push_back (1::nat), Push_back 2, Pop_front, Push_back 3, Pop_front]" "[3]" "[1, 2]"]
  by (simp add: TSQueue_push_back_def TSQueue_pop_front_def)

text \<open>
  Claim C4. \<open>pop_back\<close> on the queue \<open>[E1, E2]\<close> returns the back item \<open>E2\<close>, but
  the item it removes is the front one, \<open>E1\<close>: what stays queued is the moved-from
  remains of \<open>E2\<close>, where the claim has \<open>[E1]\<close>.
\<close>

theorem TSQueue_pop_back_removes_front:
  "TSQueue_pop_back Event_moved
     [\<lparr>peer_id = 1, type = Connect, packet = None\<rparr>,
      \<lparr>peer_id = 2, type = Receive,
        packet = Some \<lparr>header = \<lparr>header_id = 3, header_type = 4\<rparr>, data = [111, 107]\<rparr>\<rparr>]
   = Some (\<lparr>peer_id = 2, type = Receive,
             packet = Some \<lparr>header = \<lparr>header_id = 3, header_type = 4\<rparr>, data = [111, 107]\<rparr>\<rparr>,
           [\<lparr>peer_id = 2, type = Receive, packet = None\<rparr>])"
  by (simp add: TSQueue_pop_back_def Event_moved_def Let_def)

section \<open>Sending\<close>

text \<open>
  Claim C1. On a server whose running flag is clear, with client 1 registered,
  \<open>Server_send\<close> hands the serialized packet to \<open>enet_peer_send\<close> and
  \<open>Server_broadcast\<close> hands it to \<open>enet_host_broadcast\<close>: the send is not rejected.
\<close>

theorem Server_send_while_stopped:
  "snd (Server_send LittleEndian \<lparr>packet_create_ok = True, peer_send_result = 0\<rparr> 1
          \<lparr>header = \<lparr>header_id = 3, header_type = 4\<rparr>, data = [111, 107]\<rparr> RELIABLE
          (Server_init\<lparr>clients := [1 \<mapsto> 7]\<rparr>))
   = [enet_packet_create [3, 0, 0, 0, 4, 0, 0, 0, 111, 107] 1,
      enet_peer_send (Some 7) 0 (Some ([3, 0, 0, 0, 4, 0, 0, 0, 111, 107], 1))] \<and>
   snd (Server_broadcast LittleEndian \<lparr>packet_create_ok = True, peer_send_result = 0\<rparr>
          \<lparr>header = \<lparr>header_id = 3, header_type = 4\<rparr>, data = [111, 107]\<rparr> RELIABLE
          (Server_init\<lparr>clients := [1 \<mapsto> 7]\<rparr>))
   = [enet_packet_create [3, 0, 0, 0, 4, 0, 0, 0, 111, 107] 1,
      enet_host_broadcast 0 ([3, 0, 0, 0, 4, 0, 0, 0, 111, 107], 1)] \<and>
   \<not> server_running (Server_init\<lparr>clients := [1 \<mapsto> 7]\<rparr>)"
  by (simp add: Server_send_def Server_broadcast_def Server_init_def serialize_packet_layout
      Header_bytes_def le_bytes_def RELIABLE_def Let_def)

text \<open>
  Claim C9. A send on a client that is not connected makes no call into the transport
  engine and returns the client unchanged. A send to a client id that is not in the
  server's registry returns the server unchanged and makes no send or broadcast call.
  Neither raises: both functions are total.
\<close>

theorem send_noop:
  "(\<not> connected c \<longrightarrow> Client_send bo env pkt flag c = (c, [])) \<and>
   (clients s client_id = None \<longrightarrow>
      fst (Server_send bo env client_id pkt flag s) = s \<and>
      \<not> list_ex is_transport_send (snd (Server_send bo env client_id pkt flag s)))"
  by (simp add: Client_send_def Server_send_def Let_def)

theorem send_noop_witness:
  "Client_send LittleEndian \<lparr>packet_create_ok = True, peer_send_result = 0\<rparr>
      \<lparr>header = \<lparr>header_id = 3, header_type = 4\<rparr>, data = [111, 107]\<rparr> RELIABLE
      \<lparr>peer = Some 7, running = True, connected = False, events = []\<rparr>
    = (\<lparr>peer = Some 7, running = True, connected = False, events = []\<rparr>, []) \<and>
   fst (Server_send LittleEndian \<lparr>packet_create_ok = True, peer_send_result = 0\<rparr> 2
      \<lparr>header = \<lparr>header_id = 3, header_type = 4\<rparr>, data = [111, 107]\<rparr> RELIABLE
      (Server_init\<lparr>clients := [1 \<mapsto> 7]\<rparr>)) = Server_init\<lparr>clients := [1 \<mapsto> 7]\<rparr> \<and>
   \<not> list_ex is_transport_send (snd (Server_send LittleEndian \<lparr>packet_create_ok = True, peer_send_result = 0\<rparr> 2
      \<lparr>header = \<lparr>header_id = 3, header_type = 4\<rparr>, data = [111, 107]\<rparr> RELIABLE
      (Server_init\<lparr>clients := [1 \<mapsto> 7]\<rparr>)))"
  using send_noop [of "\<lparr>peer = Some 7, running = True, connected = False, events = []\<rparr>"
      LittleEndian "\<lparr>packet_create_ok = True, peer_send_result = 0\<rparr>"
      "\<lparr>header = \<lparr>header_id = 3, header_type = 4\<rparr>, data = [111, 107]\<rparr>" RELIABLE
      "Server_init\<lparr>clients := [1 \<mapsto> 7]\<rparr>" 2]
  by (simp add: Server_init_def)

section \<open>Client network loop\<close>

lemma Client_loop_stmts_run:
  "fold Client_exec (Client_loop_stmts bo feed c) c = Client_network_thread_loop bo feed c"
  by (induction feed arbitrary: c) (simp_all add: Client_service_def)


lemma pushed_events_append:
  "pushed_events (xs @ ys) = pushed_events xs @ pushed_events ys"
  by (induction xs rule: pushed_events.induct) simp_all

lemma events_fold_Client_exec:
  "events (fold Client_exec sts c) = events c @ pushed_events sts"
  by (induction sts arbitrary: c rule: pushed_events.induct)
     (simp_all add: TSQueue_push_back_def)

lemma pushed_events_Client_case:
  "e \<in> set (pushed_events (Client_case bo ev)) \<Longrightarrow> peer_id e = serverid"
  by (cases ev) auto

lemma pushed_events_Client_service:
  "e \<in> set (pushed_events (Client_service_stmts bo batch)) \<Longrightarrow> peer_id e = serverid"
  unfolding Client_service_stmts_def
  by (induction batch) (auto simp add: pushed_events_append dest: pushed_events_Client_case)

lemma pushed_events_Client_loop:
  "e \<in> set (pushed_events (Client_loop_stmts bo feed c)) \<Longrightarrow> peer_id e = serverid"
  by (induction feed arbitrary: c)
     (auto simp add: pushed_events_append dest: pushed_events_Client_service split: if_splits)

lemma example_events: "events (Client_network_thread_loop LittleEndian example_feed example_client) = 
    [\<lparr>peer_id = 0, type = Connect, packet = None\<rparr>,
     \<lparr>peer_id = 0, type = Receive,
       packet = Some \<lparr>header = \<lparr>header_id = 1, header_type = 2\<rparr>, data = [104, 105]\<rparr>\<rparr>,
     \<lparr>peer_id = 0, type = Disconnect, packet = None\<rparr>]"
  by (simp add: example_feed_def example_client_def Client_service_def Client_service_stmts_def
        TSQueue_push_back_def serverid_def deserialize_packet_def sizeof_Header_def putdata_def
        Header_of_bytes_def le_word_def)




text \<open>
  Claim C10. The events that the client's network loop adds to its queue are the ones
  its statements push, and each of them carries \<open>peer_id = 0\<close>, whatever the kind.
  A queue that held only such events before the loop, as the empty queue of a new client
  does, holds only such events after it.
\<close>

theorem Client_events_peer_id_zero:
  "events (Client_network_thread_loop bo feed c)
     = events c @ pushed_events (Client_loop_stmts bo feed c) \<and>
   (\<forall>e \<in> set (pushed_events (Client_loop_stmts bo feed c)). peer_id e = 0) \<and>
   ((\<forall>e \<in> set (events c). peer_id e = 0) \<longrightarrow>
      (\<forall>e \<in> set (events (Client_network_thread_loop bo feed c)). peer_id e = 0))"
proof -
  have run: "events (Client_network_thread_loop bo feed c)
      = events c @ pushed_events (Client_loop_stmts bo feed c)"
    using events_fold_Client_exec [of "Client_loop_stmts bo feed c" c]
    by (simp add: Client_loop_stmts_run)
  have zero: "\<forall>e \<in> set (pushed_events (Client_loop_stmts bo feed c)). peer_id e = 0"
    using pushed_events_Client_loop [of _ bo feed c] by (auto simp add: serverid_def)
  from run zero show ?thesis by auto
qed

theorem Client_events_peer_id_zero_witness:
  "events (Client_network_thread_loop LittleEndian example_feed example_client) =
    [\<lparr>peer_id = 0, type = Connect, packet = None\<rparr>,
     \<lparr>peer_id = 0, type = Receive,
       packet = Some \<lparr>header = \<lparr>header_id = 1, header_type = 2\<rparr>, data = [104, 105]\<rparr>\<rparr>,
     \<lparr>peer_id = 0, type = Disconnect, packet = None\<rparr>] \<and>
   events example_client = [] \<and>
   list_all (\<lambda>e. peer_id e = 0)
     (events (Client_network_thread_loop LittleEndian example_feed example_client))"
proof -
  have empty: "events example_client = []"
    by (simp add: example_client_def)
  then have "\<forall>e \<in> set (events example_client). peer_id e = 0"
    by simp
  with Client_events_peer_id_zero [of LittleEndian example_feed example_client]
  have "\<forall>e \<in> set (events (Client_network_thread_loop LittleEndian example_feed example_client)).
      peer_id e = 0"
    by blast
  then have "list_all (\<lambda>e. peer_id e = 0)
     (events (Client_network_thread_loop LittleEndian example_feed example_client))"
    by (simp add: list_all_iff)
  with empty example_events show ?thesis by blast
qed











section \<open>Client registry of the server\<close>

lemma Server_case_running:
  "server_running (Server_case bo ev s) = server_running s"
  by (cases ev) (simp_all add: Let_def)

lemma Server_case_curid:
  "curid (Server_case bo ev s) = (if is_CONNECT ev then curid s + 1 else curid s)"
  by (cases ev) (simp_all add: Let_def)

lemma Server_case_connect_ids:
  "connect_ids (server_events (Server_case bo ev s))
     = connect_ids (server_events s) @ (if is_CONNECT ev then [curid s] else [])"
  by (cases ev) (simp_all add: Let_def connect_ids_def TSQueue_push_back_def)

lemma fresh_ids_Suc: "fresh_ids c (Suc k) = c # fresh_ids (c + 1) k"
proof -
  have "[0..<Suc k] = 0 # map Suc [0..<k]"
    by (simp add: upt_conv_Cons map_Suc_upt del: upt_Suc)
  then show ?thesis
    by (simp add: fresh_ids_def comp_def add.assoc del: upt_Suc)
qed

lemma Server_service_running:
  "server_running (Server_service bo batch s) = server_running s"
  unfolding Server_service_def
  by (induction batch arbitrary: s) (simp_all add: Server_case_running)

lemma Server_service_ids:
  "connect_ids (server_events (Server_service bo batch s))
     = connect_ids (server_events s) @ fresh_ids (curid s) (length (filter is_CONNECT batch)) \<and>
   curid (Server_service bo batch s) = curid s + of_nat (length (filter is_CONNECT batch))"
  unfolding Server_service_def
proof (induction batch arbitrary: s)
  case Nil
  then show ?case by (simp add: fresh_ids_def)
next
  case (Cons ev batch)
  show ?case
    using Cons [of "Server_case bo ev s"]
    by (simp add: Server_case_curid Server_case_connect_ids fresh_ids_Suc add.assoc)
qed

lemma Server_loop_stopped:
  "\<not> server_running s \<Longrightarrow> Server_network_thread_loop bo feed s = s"
  by (cases feed) simp_all

lemma Server_loop_running:
  "server_running s \<Longrightarrow>
     Server_network_thread_loop bo feed s = Server_service bo (concat feed) s"
proof (induction feed arbitrary: s)
  case Nil
  then show ?case by (simp add: Server_service_def)
next
  case (Cons batch feed)
  then show ?case
    by (simp add: Server_service_running) (simp add: Server_service_def)
qed

lemma Server_loop_ids:
  "\<exists>k \<le> count_CONNECT feed. (server_running s \<longrightarrow> k = count_CONNECT feed) \<and>
     connect_ids (server_events (Server_network_thread_loop bo feed s))
       = connect_ids (server_events s) @ fresh_ids (curid s) k"
proof (cases "server_running s")
  case True
  then show ?thesis
    by (simp add: Server_loop_running Server_service_ids count_CONNECT_def)
next
  case False
  then have "connect_ids (server_events (Server_network_thread_loop bo feed s))
       = connect_ids (server_events s) @ fresh_ids (curid s) 0"
    by (simp add: Server_loop_stopped fresh_ids_def)
  with False show ?thesis by blast
qed

lemma unat_fresh_ids:
  assumes "k < 2 ^ 32"
  shows "map unat (fresh_ids 1 k) = [1..<Suc k]"
proof -
  have "unat (1 + of_nat i :: uint32) = Suc i" if "i < k" for i
  proof -
    from that assms have "Suc i < 2 ^ 32" by simp
    then have "unat (of_nat (Suc i) :: uint32) = Suc i"
      by (simp add: unat_of_nat del: of_nat_Suc)
    then show ?thesis by simp
  qed
  then have "map unat (fresh_ids 1 k) = map Suc [0..<k]"
    by (simp add: fresh_ids_def)
  then show ?thesis
    by (simp add: map_Suc_upt)
qed

lemma ids_of_unat:
  fixes ids :: "uint32 list"
  assumes "map unat ids = [1..<Suc n]"
  shows "distinct ids \<and> sorted_wrt (<) ids \<and> (\<forall>i \<in> set ids. 0 < i)"
proof -
  have "distinct (map unat ids)" by (simp only: assms distinct_upt)
  then have d: "distinct ids" by (rule distinct_map [THEN iffD1, THEN conjunct1])
  have "sorted_wrt (<) (map unat ids)" by (simp only: assms sorted_wrt_upt)
  then have s: "sorted_wrt (<) ids"
    by (simp add: sorted_wrt_map word_less_nat_alt [symmetric])
  have "\<forall>i \<in> set ids. 0 < i"
  proof
    fix i assume "i \<in> set ids"
    then have "unat i \<in> set (map unat ids)" by simp
    then have "0 < unat i" by (simp add: assms del: upt_Suc)
    then show "0 < i" by (simp add: word_less_nat_alt)
  qed
  with d s show ?thesis by blast
qed

lemma count_CONNECT_churn: "count_CONNECT (churn n) = n"
  by (induction n) (simp_all add: count_CONNECT_def churn_def)

lemma churn_ids:
  "connect_ids (server_events (Server_network_thread_loop bo (churn n) (Server_start Server_init)))
     = fresh_ids 1 n"
proof -
  have r: "server_running (Server_start Server_init)"
    by (simp add: Server_start_def Server_init_def)
  have "curid (Server_start Server_init) = 1" "server_events (Server_start Server_init) = []"
    by (simp_all add: Server_start_def Server_init_def)
  with Server_loop_ids [of "churn n" "Server_start Server_init" bo] r
  show ?thesis
    by (simp add: count_CONNECT_churn connect_ids_def)
qed

text \<open>
  Claim C5, as stated, fails once \<open>curid\<close> wraps: the counter is a \<^verbatim>\<open>uint32\<close>.
  On a running server that sees a client connect and disconnect \<open>2^32 + 1\<close> times, the
  connection number \<open>2^32\<close> is given the id 0, which is not positive, and the next one
  the id 1, which the first connection had.
\<close>

theorem Server_ids_wrap:
  "connect_ids (server_events (Server_network_thread_loop LittleEndian (churn 4294967297)
       (Server_start Server_init))) ! 4294967295 = 0 \<and>
   connect_ids (server_events (Server_network_thread_loop LittleEndian (churn 4294967297)
       (Server_start Server_init))) ! 4294967296 = 1 \<and>
   connect_ids (server_events (Server_network_thread_loop LittleEndian (churn 4294967297)
       (Server_start Server_init))) ! 0 = 1"
  by (simp add: churn_ids fresh_ids_def)

text \<open>
  Claim C5, amended. From a server whose counter is at 1 and whose queue is empty, for
  every feed with fewer than \<open>2^32\<close> CONNECT notifications, the ids assigned are
  \<open>1, 2, \<dots>, n\<close> in the order of acceptance: pairwise distinct, positive, strictly
  increasing, and never reused, whatever DISCONNECT notifications the feed has in
  between. On a running server \<open>n\<close> is the number of CONNECT notifications.
\<close>

theorem Server_ids_distinct_until_wrap:
  assumes "curid s = 1" and "server_events s = []" and "count_CONNECT feed < 2 ^ 32"
  shows "map unat (connect_ids (server_events (Server_network_thread_loop bo feed s)))
           = [1..<Suc (length (connect_ids (server_events (Server_network_thread_loop bo feed s))))] \<and>
         distinct (connect_ids (server_events (Server_network_thread_loop bo feed s))) \<and>
         sorted_wrt (<) (connect_ids (server_events (Server_network_thread_loop bo feed s))) \<and>
         (\<forall>i \<in> set (connect_ids (server_events (Server_network_thread_loop bo feed s))). 0 < i) \<and>
         (server_running s \<longrightarrow>
            length (connect_ids (server_events (Server_network_thread_loop bo feed s)))
              = count_CONNECT feed)"
proof -
  let ?ids = "connect_ids (server_events (Server_network_thread_loop bo feed s))"
  from Server_loop_ids [of feed s bo] assms(1,2)
  obtain k where k: "k \<le> count_CONNECT feed"
      "server_running s \<longrightarrow> k = count_CONNECT feed" "?ids = fresh_ids 1 k"
    by (auto simp add: connect_ids_def)
  from k(1) assms(3) have "k < 2 ^ 32" by simp
  then have u: "map unat ?ids = [1..<Suc k]"
    using k(3) unat_fresh_ids by simp
  have len: "length ?ids = k"
    using k(3) by (simp add: fresh_ids_def)
  from u len have "map unat ?ids = [1..<Suc (length ?ids)]" by simp
  moreover from u have "distinct ?ids \<and> sorted_wrt (<) ?ids \<and> (\<forall>i \<in> set ?ids. 0 < i)"
    by (rule ids_of_unat)
  moreover from k(2) len have "server_running s \<longrightarrow> length ?ids = count_CONNECT feed"
    by simp
  ultimately show ?thesis by blast
qed

theorem Server_ids_distinct_until_wrap_witness:
  "curid (Server_start Server_init) = 1 \<and>
   server_events (Server_start Server_init) = [] \<and>
   count_CONNECT (churn 3) < 2 ^ 32 \<and>
   server_running (Server_start Server_init) \<and>
   map unat (connect_ids (server_events (Server_network_thread_loop LittleEndian (churn 3)
       (Server_start Server_init)))) = [1, 2, 3]"
proof -
  let ?s = "Server_start Server_init"
  let ?ids = "connect_ids (server_events (Server_network_thread_loop LittleEndian (churn 3) ?s))"
  have h: "curid ?s = 1" "server_events ?s = []" "count_CONNECT (churn 3) < 2 ^ 32"
      "server_running ?s"
    by (simp_all add: Server_start_def Server_init_def count_CONNECT_churn)
  from Server_ids_distinct_until_wrap [OF h(1,2,3), of LittleEndian] h(4)
  have "map unat ?ids = [1..<Suc (length ?ids)]" "length ?ids = count_CONNECT (churn 3)"
    by blast+
  then have "map unat ?ids = [1..<Suc 3]"
    by (simp add: count_CONNECT_churn)
  also have "[1..<Suc 3] = [1, 2, 3]"
    by (simp add: upt_rec)
  finally show ?thesis using h by simp
qed

end
